theory Spec2Isabelle
  imports Main "HOL-Library.Word"
begin

unbundle bit_operations_syntax

section \<open>Python values and exceptions\<close>

text \<open>
  The content fetcher of \<^verbatim>\<open>src/utils/utils.py\<close>: \<^verbatim>\<open>check_data_url\<close> (the inline data
  decoder) and \<^verbatim>\<open>get_content\<close> (inline short-circuit, then one HTTP GET).

  A Python \<^verbatim>\<open>str\<close> is modelled as \<^typ>\<open>string\<close>, a list of characters with code points
  below 256; \<^verbatim>\<open>bytes\<close> as a list of 8-bit words. Exceptions are values of \<open>exn\<close> and
  every function that can raise returns \<open>exn + result\<close>, \<open>Inl\<close> being the raise.
\<close>

type_synonym byte = "8 word"

text \<open>
  The three exception classes that the \<^verbatim>\<open>except\<close> clauses of \<^verbatim>\<open>get_content\<close> name.
  An exception raised by the HTTP client is recorded with its class name and with the
  classes among these three that it is an instance of (aiohttp's \<^verbatim>\<open>ServerTimeoutError\<close>,
  for one, is both a timeout and a \<^verbatim>\<open>ClientConnectionError\<close>).
\<close>

datatype handled_class = InvalidURL | AsyncioTimeoutError | ClientConnectionError

datatype exn =
    ValueError string
  | BadResponseError string
  | TypeError string
  | BinasciiError string
  | KeyError string
  | ClientException string "handled_class list"

fun isinstance :: "exn \<Rightarrow> handled_class \<Rightarrow> bool" where
  "isinstance (ClientException name classes) c = (c \<in> set classes)"
| "isinstance _ c = False"

text \<open>What \<^verbatim>\<open>check_data_url\<close> can return: \<^verbatim>\<open>None\<close>, a \<^verbatim>\<open>str\<close> or \<^verbatim>\<open>bytes\<close>.\<close>

datatype pydata = PyNone | PyStr string | PyBytes "byte list"

text \<open>What \<^verbatim>\<open>get_content\<close> can return: one of the above, or a parsed JSON value.\<close>

datatype 'j pyval = Data pydata | Json 'j

text \<open>Truthiness, as \<^verbatim>\<open>if data:\<close> tests it.\<close>

fun truthy :: "pydata \<Rightarrow> bool" where
  "truthy PyNone = False"
| "truthy (PyStr s) = (s \<noteq> [])"
| "truthy (PyBytes b) = (b \<noteq> [])"

text \<open>The substring test \<^verbatim>\<open>sub in s\<close> on strings.\<close>

fun startswith :: "string \<Rightarrow> string \<Rightarrow> bool" where
  "startswith s [] = True"
| "startswith [] (p # ps) = False"
| "startswith (c # cs) (p # ps) = (c = p \<and> startswith cs ps)"

fun str_in :: "string \<Rightarrow> string \<Rightarrow> bool" where
  "str_in sub [] = (sub = [])"
| "str_in sub (c # cs) = (startswith (c # cs) sub \<or> str_in sub cs)"

text \<open>Decimal rendering of an integer, as an f-string or \<^verbatim>\<open>%zd\<close> prints it.\<close>

definition digit_char :: "nat \<Rightarrow> char" where
  "digit_char d = ''0123456789'' ! d"

function str_nat :: "nat \<Rightarrow> string" where
  "str_nat n = (if n < 10 then [digit_char n] else str_nat (n div 10) @ [digit_char (n mod 10)])"
  by pat_completeness auto
termination
  by (relation "measure id") auto

definition str_int :: "int \<Rightarrow> string" where
  "str_int i = (if i < 0 then CHR ''-'' # str_nat (nat (- i)) else str_nat (nat i))"

section \<open>The data URL pattern\<close>

text \<open>
  \<^verbatim>\<open>data_url_regex = r"^data:([\w\/\+-]*)(;charset=[\w-]+)?(;base64)?,(.*)"\<close>

  \<^verbatim>\<open>\w\<close> on a \<^verbatim>\<open>str\<close> pattern is Unicode-aware: the alphanumeric characters and the
  underscore. Below 256 these are the ASCII letters and digits, the underscore, and the
  Latin-1 letters, superscript digits and vulgar fractions.
\<close>

definition is_word :: "char \<Rightarrow> bool" where
  "is_word c =
     (let n = (of_char c :: nat) in
        (48 \<le> n \<and> n \<le> 57) \<or> (65 \<le> n \<and> n \<le> 90) \<or> n = 95 \<or> (97 \<le> n \<and> n \<le> 122) \<or>
        n = 170 \<or> n = 178 \<or> n = 179 \<or> n = 181 \<or> n = 185 \<or> n = 186 \<or>
        n = 188 \<or> n = 189 \<or> n = 190 \<or>
        (192 \<le> n \<and> n \<le> 214) \<or> (216 \<le> n \<and> n \<le> 246) \<or> 248 \<le> n)"

text \<open>The class \<^verbatim>\<open>[\w\/\+-]\<close> of the media type and the class \<^verbatim>\<open>[\w-]\<close> of the charset.\<close>

definition mime_class :: "char \<Rightarrow> bool" where
  "mime_class c = (is_word c \<or> c = CHR ''/'' \<or> c = CHR ''+'' \<or> c = CHR ''-'')"

definition charset_class :: "char \<Rightarrow> bool" where
  "charset_class c = (is_word c \<or> c = CHR ''-'')"

text \<open>Matching a literal at the head of the text: the rest of the text, if it is there.\<close>

fun literal :: "string \<Rightarrow> string \<Rightarrow> string option" where
  "literal [] s = Some s"
| "literal (p # ps) [] = None"
| "literal (p # ps) (c # cs) = (if p = c then literal ps cs else None)"

text \<open>
  \<^verbatim>\<open>re.match(data_url_regex, url)\<close> followed by \<^verbatim>\<open>match.groups()\<close>: \<open>None\<close> when the pattern
  does not match at the start of the text, else the four groups, an optional group that
  took no part being \<open>None\<close>.

  The pattern is matched left to right without any choice: a character of either class
  is neither \<^verbatim>\<open>;\<close> nor \<^verbatim>\<open>,\<close>, so the two class repetitions take their whole run, and an
  optional group that could match but is skipped leaves a \<^verbatim>\<open>;\<close> where the pattern needs
  \<^verbatim>\<open>;base64\<close> or \<^verbatim>\<open>,\<close>. The dot does not match a line feed, so the last group stops in
  front of the first one; the pattern has no end anchor.
\<close>

definition data_url_match :: "string \<Rightarrow> (string \<times> string option \<times> string option \<times> string) option" where
  "data_url_match url =
     (case literal ''data:'' url of
        None \<Rightarrow> None
      | Some r1 \<Rightarrow>
          let g1 = takeWhile mime_class r1;
              r2 = dropWhile mime_class r1;
              (g2, r3) =
                (case literal '';charset='' r2 of
                   None \<Rightarrow> (None, r2)
                 | Some t \<Rightarrow>
                     if takeWhile charset_class t = [] then (None, r2)
                     else (Some ('';charset='' @ takeWhile charset_class t),
                           dropWhile charset_class t));
              (g3, r4) =
                (case literal '';base64'' r3 of
                   None \<Rightarrow> (None, r3)
                 | Some t \<Rightarrow> (Some '';base64'', t))
          in case literal '','' r4 of
               None \<Rightarrow> None
             | Some t \<Rightarrow> Some (g1, g2, g3, takeWhile (\<lambda>c. c \<noteq> CHR 0x0A) t))"

section \<open>The base64 decoder of the standard library\<close>

text \<open>
  \<^verbatim>\<open>base64.b64decode(s)\<close> with its defaults (\<^verbatim>\<open>altchars=None\<close>, \<^verbatim>\<open>validate=False\<close>)
  turns a \<^verbatim>\<open>str\<close> into ASCII bytes and calls \<^verbatim>\<open>binascii.a2b_base64\<close> in its
  non-strict mode. The model follows the loop of CPython's \<^verbatim>\<open>binascii_a2b_base64_impl\<close>
  (3.11 to 3.13) state by state: \<open>quad_pos\<close>, \<open>leftchar\<close>, \<open>pads\<close> and the output
  written so far.
\<close>

definition bytes_from_decode_data :: "string \<Rightarrow> exn + byte list" where
  "bytes_from_decode_data s =
     (if list_all (\<lambda>c. (of_char c :: nat) < 128) s then Inr (map of_char s)
      else Inl (ValueError ''string argument should contain only ASCII characters''))"

text \<open>
  \<^verbatim>\<open>table_a2b_base64\<close>: the 6-bit value of a character of the base64 alphabet, 255 for
  any other byte.
\<close>

definition table_a2b_base64 :: "byte \<Rightarrow> byte" where
  "table_a2b_base64 c =
     (if 0x41 \<le> c \<and> c \<le> 0x5A then c - 0x41
      else if 0x61 \<le> c \<and> c \<le> 0x7A then c - 0x61 + 26
      else if 0x30 \<le> c \<and> c \<le> 0x39 then c - 0x30 + 52
      else if c = 0x2B then 62
      else if c = 0x2F then 63
      else 255)"

fun a2b_base64_loop :: "byte list \<Rightarrow> nat \<Rightarrow> byte \<Rightarrow> nat \<Rightarrow> byte list \<Rightarrow> exn + byte list" where
  "a2b_base64_loop [] quad_pos leftchar pads bin =
     (if quad_pos \<noteq> 0 then
        if quad_pos = 1 then
          Inl (BinasciiError
                (''Invalid base64-encoded string: number of data characters ('' @
                 str_nat (length bin div 3 * 4 + 1) @
                 '') cannot be 1 more than a multiple of 4''))
        else Inl (BinasciiError ''Incorrect padding'')
      else Inr bin)"
| "a2b_base64_loop (c # cs) quad_pos leftchar pads bin =
     (if c = 0x3D then
        if quad_pos \<ge> 2 \<and> quad_pos + (pads + 1) \<ge> 4 then Inr bin
        else a2b_base64_loop cs quad_pos leftchar (if quad_pos \<ge> 2 then pads + 1 else pads) bin
      else if table_a2b_base64 c \<ge> 64 then a2b_base64_loop cs quad_pos leftchar pads bin
      else if quad_pos = 0 then
        a2b_base64_loop cs 1 (table_a2b_base64 c) 0 bin
      else if quad_pos = 1 then
        a2b_base64_loop cs 2 (table_a2b_base64 c AND 0x0F) 0
          (bin @ [push_bit 2 leftchar OR drop_bit 4 (table_a2b_base64 c)])
      else if quad_pos = 2 then
        a2b_base64_loop cs 3 (table_a2b_base64 c AND 0x03) 0
          (bin @ [push_bit 4 leftchar OR drop_bit 2 (table_a2b_base64 c)])
      else
        a2b_base64_loop cs 0 0 0 (bin @ [push_bit 6 leftchar OR table_a2b_base64 c]))"

definition a2b_base64 :: "byte list \<Rightarrow> exn + byte list" where
  "a2b_base64 ascii_data = a2b_base64_loop ascii_data 0 0 0 []"

definition b64decode :: "string \<Rightarrow> exn + byte list" where
  "b64decode s =
     (case bytes_from_decode_data s of
        Inl e \<Rightarrow> Inl e
      | Inr ascii_data \<Rightarrow> a2b_base64 ascii_data)"

section \<open>The inline data decoder\<close>

text \<open>
  \<^verbatim>\<open>check_data_url\<close>. Group 3 is \<^verbatim>\<open>None\<close> when the URL has no \<^verbatim>\<open>;base64\<close> flag, and
  \<^verbatim>\<open>"base64" in None\<close> raises \<^verbatim>\<open>TypeError\<close>.
\<close>

definition check_data_url :: "string \<Rightarrow> exn + pydata" where
  "check_data_url url =
     (case data_url_match url of
        None \<Rightarrow> Inr PyNone
      | Some (mime_type, charset, encoding, data) \<Rightarrow>
          if \<not> str_in ''image'' mime_type then
            Inl (ValueError ''Only images are supported with data URLs.'')
          else
            (case encoding of
               None \<Rightarrow> Inl (TypeError ''argument of type 'NoneType' is not iterable'')
             | Some enc \<Rightarrow>
                 if str_in ''base64'' enc then
                   (case b64decode data of
                      Inl e \<Rightarrow> Inl e
                    | Inr data_bytes \<Rightarrow> Inr (PyBytes data_bytes))
                 else Inr (PyStr data)))"

section \<open>The network\<close>

text \<open>
  The HTTP client is outside the program. A response is what \<^verbatim>\<open>get_content\<close> reads of
  it: the status, the header lookup (\<^verbatim>\<open>r.headers\<close> ignores the case of a header name;
  the map is keyed by the lower-case name), and the outcomes of \<^verbatim>\<open>await r.read()\<close> and
  \<^verbatim>\<open>await r.json()\<close>, each of which may raise. A session gives, for a URL, the outcome of
  entering \<^verbatim>\<open>session.get(url)\<close>: an exception or a response. The fixed time-outs, the
  \<^verbatim>\<open>User-Agent\<close> header and the caller's keyword arguments configure the session and are
  part of it.
\<close>

record 'j response =
  status :: int
  headers :: "string \<rightharpoonup> string"
  read :: "exn + byte list"
  json :: "exn + 'j"

type_synonym 'j session = "string \<Rightarrow> exn + 'j response"

text \<open>
  The three \<^verbatim>\<open>except\<close> clauses, in the order of the source. An exception that matches none
  of them leaves the \<^verbatim>\<open>try\<close> statement as it is.
\<close>

definition except_clauses :: "exn + 'a \<Rightarrow> exn + 'a" where
  "except_clauses outcome =
     (case outcome of
        Inr v \<Rightarrow> Inr v
      | Inl e \<Rightarrow>
          if isinstance e InvalidURL then Inl (ValueError ''The URL provided is invalid.'')
          else if isinstance e AsyncioTimeoutError then
            Inl (ValueError ''Couldn't connect to URL. (Timeout)'')
          else if isinstance e ClientConnectionError then
            Inl (ValueError ''Couldn't connect to URL.'')
          else Inl e)"

text \<open>The body of \<^verbatim>\<open>async with session.get(url) as r\<close>, lines 40 to 52.\<close>

definition with_response :: "'j response \<Rightarrow> string \<Rightarrow> exn + 'j pyval" where
  "with_response r content_type =
     (if status r = 200 then
        if content_type = ''json'' then
          (case json r of Inl e \<Rightarrow> Inl e | Inr j \<Rightarrow> Inr (Json j))
        else if content_type = ''bytes'' then
          (case read r of Inl e \<Rightarrow> Inl e | Inr b \<Rightarrow> Inr (Data (PyBytes b)))
        else if content_type = ''image'' then
          (case headers r ''content-type'' of
             None \<Rightarrow> Inl (KeyError ''content-type'')
           | Some ct \<Rightarrow>
               if \<not> str_in ''image'' ct then
                 Inl (ValueError ''The URL doesn't contain any image.'')
               else
                 (case read r of Inl e \<Rightarrow> Inl e | Inr b \<Rightarrow> Inr (Data (PyBytes b))))
        else Inr (Data PyNone)
      else Inl (BadResponseError (''The URL leads to an error '' @ str_int (status r))))"

text \<open>The \<^verbatim>\<open>try\<close> statement of \<^verbatim>\<open>get_content\<close>, lines 38 to 58: the network path.\<close>

definition try_get :: "'j session \<Rightarrow> string \<Rightarrow> string \<Rightarrow> exn + 'j pyval" where
  "try_get session url content_type =
     except_clauses
       (case session url of
          Inl e \<Rightarrow> Inl e
        | Inr r \<Rightarrow> with_response r content_type)"

section \<open>The content fetcher\<close>

definition get_content :: "'j session \<Rightarrow> string \<Rightarrow> string \<Rightarrow> exn + 'j pyval" where
  "get_content session url content_type =
     (case check_data_url url of
        Inl e \<Rightarrow> Inl e
      | Inr data \<Rightarrow>
          if truthy data then Inr (Data data)
          else try_get session url content_type)"

section \<open>The base64 encoder\<close>

text \<open>
  \<^verbatim>\<open>base64.b64encode\<close>, the standard encoding of RFC 4648 with padding: three bytes
  become four characters of the alphabet, a last group of one or two bytes is padded
  with \<^verbatim>\<open>=\<close>. The program does not call it; it builds the data URIs of the round trip.
\<close>

definition table_b2a_base64 :: "byte \<Rightarrow> char" where
  "table_b2a_base64 v =
     ''ABCDEFGHIJKLMNOPQRSTUVWXYZabcdefghijklmnopqrstuvwxyz0123456789+/'' ! unat v"

text \<open>The four 6-bit groups of the 24 bits \<open>a b c\<close>.\<close>

definition sextet0 :: "byte \<Rightarrow> byte" where
  "sextet0 a = drop_bit 2 a"

definition sextet1 :: "byte \<Rightarrow> byte \<Rightarrow> byte" where
  "sextet1 a b = push_bit 4 (a AND 0x03) OR drop_bit 4 b"

definition sextet2 :: "byte \<Rightarrow> byte \<Rightarrow> byte" where
  "sextet2 b c = push_bit 2 (b AND 0x0F) OR drop_bit 6 c"

definition sextet3 :: "byte \<Rightarrow> byte" where
  "sextet3 c = c AND 0x3F"

text \<open>A last group of one or two bytes is filled with zero bits and padded.\<close>

fun b64encode :: "byte list \<Rightarrow> string" where
  "b64encode [] = []"
| "b64encode [a] =
     [table_b2a_base64 (sextet0 a), table_b2a_base64 (sextet1 a 0), CHR ''='', CHR ''='']"
| "b64encode [a, b] =
     [table_b2a_base64 (sextet0 a), table_b2a_base64 (sextet1 a b),
      table_b2a_base64 (sextet2 b 0), CHR ''='']"
| "b64encode (a # b # c # rest) =
     [table_b2a_base64 (sextet0 a), table_b2a_base64 (sextet1 a b),
      table_b2a_base64 (sextet2 b c), table_b2a_base64 (sextet3 c)] @ b64encode rest"

text \<open>The data URI that carries the bytes under a media type.\<close>

definition data_uri :: "string \<Rightarrow> byte list \<Rightarrow> string" where
  "data_uri mime bs = ''data:'' @ mime @ '';base64,'' @ b64encode bs"

section \<open>Notions used to state the properties\<close>

text \<open>A character of the base64 alphabet: \<^verbatim>\<open>A-Z\<close>, \<^verbatim>\<open>a-z\<close>, \<^verbatim>\<open>0-9\<close>, \<^verbatim>\<open>+\<close>, \<^verbatim>\<open>/\<close>.\<close>

definition is_b64_char :: "char \<Rightarrow> bool" where
  "is_b64_char c = (table_a2b_base64 (of_char c) < 64)"

text \<open>
  Valid base64 text in the sense of RFC 4648: groups of four characters of the alphabet,
  the last group closed by at most two \<^verbatim>\<open>=\<close>.
\<close>

definition valid_base64 :: "string \<Rightarrow> bool" where
  "valid_base64 s =
     (length s mod 4 = 0 \<and>
      list_all is_b64_char (takeWhile (\<lambda>c. c \<noteq> CHR ''='') s) \<and>
      list_all (\<lambda>c. c = CHR ''='') (dropWhile (\<lambda>c. c \<noteq> CHR ''='') s) \<and>
      length (dropWhile (\<lambda>c. c \<noteq> CHR ''='') s) \<le> 2)"

text \<open>
  The exceptions that \<^verbatim>\<open>get_content\<close> and \<^verbatim>\<open>check_data_url\<close> raise themselves, with
  their own \<^verbatim>\<open>raise\<close> statements: one \<^verbatim>\<open>BadResponseError\<close> and five \<^verbatim>\<open>ValueError\<close>s.
\<close>

definition classified :: "exn \<Rightarrow> bool" where
  "classified e =
     (case e of
        BadResponseError msg \<Rightarrow> True
      | ValueError msg \<Rightarrow>
          msg = ''The URL provided is invalid.'' \<or>
          msg = ''Couldn't connect to URL. (Timeout)'' \<or>
          msg = ''Couldn't connect to URL.'' \<or>
          msg = ''Only images are supported with data URLs.'' \<or>
          msg = ''The URL doesn't contain any image.''
      | _ \<Rightarrow> False)"

text \<open>One entry of the alphabet table, checked against the decoding table.\<close>

definition alphabet_ok :: "nat \<Rightarrow> bool" where
  "alphabet_ok i =
     (let c = table_b2a_base64 (of_nat i) in
        table_a2b_base64 (of_char c) = of_nat i \<and> (of_char c :: nat) < 128 \<and>
        of_char c \<noteq> (0x3D :: byte) \<and> c \<noteq> CHR 0x0A \<and> c \<noteq> CHR ''='')"

text \<open>
  Two sessions for concrete runs: a server that answers every URL with the given status,
  content type and body (and whose body is not JSON), and a client that raises the given
  exception for every URL.
\<close>

definition server_replies :: "int \<Rightarrow> string \<Rightarrow> byte list \<Rightarrow> int session" where
  "server_replies st ct body =
     (\<lambda>url. Inr \<lparr>status = st, headers = [''content-type'' \<mapsto> ct], read = Inr body,
                 json = Inl (ValueError ''Expecting value: line 1 column 1 (char 0)'')\<rparr>)"

definition client_raises :: "exn \<Rightarrow> int session" where
  "client_raises e = (\<lambda>url. Inl e)"

text \<open>
  Four exceptions of aiohttp with the handled classes they belong to:
  \<^verbatim>\<open>ServerTimeoutError(ServerConnectionError, asyncio.TimeoutError)\<close>,
  \<^verbatim>\<open>ClientConnectorError(ClientOSError)\<close>, \<^verbatim>\<open>InvalidURL(ClientError, ValueError)\<close> and
  \<^verbatim>\<open>TooManyRedirects(ClientResponseError)\<close>, which is none of the three.
\<close>

definition server_timeout_error :: exn where
  "server_timeout_error =
     ClientException ''ServerTimeoutError'' [AsyncioTimeoutError, ClientConnectionError]"

definition client_connector_error :: exn where
  "client_connector_error = ClientException ''ClientConnectorError'' [ClientConnectionError]"

definition invalid_url :: exn where
  "invalid_url = ClientException ''InvalidURL'' [InvalidURL]"

definition too_many_redirects :: exn where
  "too_many_redirects = ClientException ''TooManyRedirects'' []"

section \<open>Bytes and the base64 alphabet\<close>

lemma mask_3: "(3::byte) = mask 2"
  and mask_15: "(15::byte) = mask 4"
  and mask_63: "(63::byte) = mask 6"
  by (simp_all add: mask_eq_exp_minus_1)

lemma bit_position_cases: "n < 8 \<Longrightarrow> n \<in> {0, 1, 2, 3, 4, 5, 6, 7::nat}"
  by auto

lemma byte_eqI:
  assumes "bit a 0 = bit b 0" "bit a 1 = bit b 1" "bit a 2 = bit b 2" "bit a 3 = bit b 3"
    "bit a 4 = bit b 4" "bit a 5 = bit b 5" "bit a 6 = bit b 6" "bit a 7 = bit b 7"
  shows "a = (b::byte)"
proof (rule bit_word_eqI)
  fix n assume "n < LENGTH(8)"
  then have "n < 8" by simp
  from bit_position_cases[OF this] show "bit a n = bit b n"
    using assms by auto
qed

lemma no_high_bit: "8 \<le> n \<Longrightarrow> \<not> bit (a::byte) n"
  by (auto dest: bit_imp_le_length)

lemmas byte_bits = bit_simps mask_3 mask_15 mask_63 no_high_bit

text \<open>The decoder's three output bytes of a group are the three bytes that were encoded.\<close>

lemma first_byte: "push_bit 2 (sextet0 a) OR drop_bit 4 (sextet1 a b) = a"
  unfolding sextet0_def sextet1_def by (rule byte_eqI; simp add: byte_bits)

lemma second_byte: "push_bit 4 (sextet1 a b AND 0x0F) OR drop_bit 2 (sextet2 b c) = b"
  unfolding sextet1_def sextet2_def by (rule byte_eqI; simp add: byte_bits)

lemma third_byte: "push_bit 6 (sextet2 b c AND 0x03) OR sextet3 c = c"
  unfolding sextet2_def sextet3_def by (rule byte_eqI; simp add: byte_bits)

lemma second_byte': "push_bit 4 (sextet1 a b) AND 240 OR drop_bit 2 (sextet2 b c) = b"
  using second_byte[of a b c] by (simp add: push_bit_and)

lemma third_byte': "push_bit 6 (sextet2 b c) AND 192 OR sextet3 c = c"
  using third_byte[of b c] by (simp add: push_bit_and)

lemma six_bits_iff: "(v::byte) < 64 \<longleftrightarrow> v AND mask 6 = v"
  using mask_eq_iff_w2p[of 6 v] by (simp add: word_size)

lemma sextet0_less: "sextet0 a < 64"
  unfolding six_bits_iff sextet0_def by (rule byte_eqI; simp add: byte_bits)

lemma sextet1_less: "sextet1 a b < 64"
  unfolding six_bits_iff sextet1_def by (rule byte_eqI; simp add: byte_bits)

lemma sextet2_less: "sextet2 b c < 64"
  unfolding six_bits_iff sextet2_def by (rule byte_eqI; simp add: byte_bits)

lemma sextet3_less: "sextet3 c < 64"
  unfolding six_bits_iff sextet3_def by (rule byte_eqI; simp add: byte_bits)

lemmas sextet_less = sextet0_less sextet1_less sextet2_less sextet3_less

lemma alphabet_table: "list_all alphabet_ok [0..<64]"
  by code_simp

lemma alphabet_ok_sextet:
  assumes "v < (64::byte)"
  shows "alphabet_ok (unat v)"
proof -
  have "unat v < 64" using assms by (simp add: word_less_nat_alt)
  then show ?thesis using alphabet_table by (simp add: list_all_iff)
qed

lemma table_inverse: "v < 64 \<Longrightarrow> table_a2b_base64 (of_char (table_b2a_base64 v)) = v"
  and table_ascii: "v < 64 \<Longrightarrow> (of_char (table_b2a_base64 v) :: nat) < 128"
  and table_not_pad: "v < 64 \<Longrightarrow> of_char (table_b2a_base64 v) \<noteq> (0x3D :: byte)"
  and table_not_newline: "v < 64 \<Longrightarrow> table_b2a_base64 v \<noteq> CHR 0x0A"
  and table_not_equals: "v < 64 \<Longrightarrow> table_b2a_base64 v \<noteq> CHR ''=''"
  using alphabet_ok_sextet[of v] by (simp_all add: alphabet_ok_def Let_def)

section \<open>Decoding what was encoded\<close>

lemma loop_alphabet_char:
  assumes "v < 64"
  shows "a2b_base64_loop (of_char (table_b2a_base64 v) # cs) q l p bin =
     (if q = 0 then a2b_base64_loop cs 1 v 0 bin
      else if q = 1 then
        a2b_base64_loop cs 2 (v AND 0x0F) 0 (bin @ [push_bit 2 l OR drop_bit 4 v])
      else if q = 2 then
        a2b_base64_loop cs 3 (v AND 0x03) 0 (bin @ [push_bit 4 l OR drop_bit 2 v])
      else a2b_base64_loop cs 0 0 0 (bin @ [push_bit 6 l OR v]))"
proof -
  have "\<not> 64 \<le> v" using assms by simp
  then show ?thesis using assms by (simp add: table_inverse table_not_pad)
qed

lemma loop_pad_char:
  "a2b_base64_loop (0x3D # cs) q l p bin =
     (if q \<ge> 2 \<and> q + (p + 1) \<ge> 4 then Inr bin
      else a2b_base64_loop cs q l (if q \<ge> 2 then p + 1 else p) bin)"
  by simp

lemma loop_b64encode:
  "a2b_base64_loop (map of_char (b64encode bs)) 0 l p bin = Inr (bin @ bs)"
proof (induction bs arbitrary: l p bin rule: b64encode.induct)
  case 1
  show ?case by simp
next
  case (2 a)
  show ?case
    by (simp add: loop_alphabet_char loop_pad_char sextet_less first_byte
        del: a2b_base64_loop.simps(2))
next
  case (3 a b)
  show ?case
    by (simp add: loop_alphabet_char loop_pad_char sextet_less first_byte second_byte
        second_byte' del: a2b_base64_loop.simps(2))
next
  case (4 a b c rest)
  then show ?case
    by (simp add: loop_alphabet_char sextet_less first_byte second_byte third_byte
        second_byte' third_byte' del: a2b_base64_loop.simps(2))
qed

lemma b64encode_ascii: "list_all (\<lambda>c. (of_char c :: nat) < 128) (b64encode bs)"
  by (induction bs rule: b64encode.induct) (simp_all add: table_ascii sextet_less)

lemma b64encode_no_newline: "CHR 0x0A \<notin> set (b64encode bs)"
  by (induction bs rule: b64encode.induct)
    (simp_all add: table_not_newline[symmetric] sextet_less)

text \<open>Round trip of the codec alone: decoding an encoding gives the bytes back.\<close>

lemma b64decode_b64encode: "b64decode (b64encode bs) = Inr bs"
  by (simp add: b64decode_def bytes_from_decode_data_def b64encode_ascii a2b_base64_def
      loop_b64encode)

section \<open>Strings, the pattern and the inline decoder\<close>

lemma literal_append [simp]: "literal p (p @ s) = Some s"
  by (induction p) simp_all

lemma literal_Some_iff: "literal p s = Some t \<longleftrightarrow> s = p @ t"
  by (induction p s rule: literal.induct) auto

lemma startswith_iff: "startswith s p \<longleftrightarrow> (\<exists>t. s = p @ t)"
  by (induction s p rule: startswith.induct) auto

lemma str_in_iff: "str_in sub s \<longleftrightarrow> (\<exists>pre post. s = pre @ sub @ post)"
proof (induction s)
  case Nil
  then show ?case by auto
next
  case (Cons c cs)
  show ?case
  proof
    assume "str_in sub (c # cs)"
    then consider "startswith (c # cs) sub" | "str_in sub cs" by auto
    then show "\<exists>pre post. c # cs = pre @ sub @ post"
    proof cases
      case 1
      then obtain t where "c # cs = sub @ t" by (auto simp: startswith_iff)
      then have "c # cs = [] @ sub @ t" by simp
      then show ?thesis by blast
    next
      case 2
      then obtain pre post where "cs = pre @ sub @ post" using Cons by auto
      then have "c # cs = (c # pre) @ sub @ post" by simp
      then show ?thesis by blast
    qed
  next
    assume "\<exists>pre post. c # cs = pre @ sub @ post"
    then obtain pre post where e: "c # cs = pre @ sub @ post" by blast
    show "str_in sub (c # cs)"
    proof (cases pre)
      case Nil
      then have "startswith (c # cs) sub" using e by (auto simp: startswith_iff)
      then show ?thesis by simp
    next
      case (Cons d pre')
      then have "cs = pre' @ sub @ post" using e by simp
      then show ?thesis using Cons.IH by auto
    qed
  qed
qed

lemma not_mime_semicolon: "\<not> mime_class CHR '';''" "\<not> mime_class CHR '',''"
  by (simp_all add: mime_class_def is_word_def)

lemma takeWhile_run:
  "list_all P xs \<Longrightarrow> \<not> P y \<Longrightarrow> takeWhile P (xs @ y # ys) = xs"
  by (induction xs) simp_all

lemma dropWhile_run:
  "list_all P xs \<Longrightarrow> \<not> P y \<Longrightarrow> dropWhile P (xs @ y # ys) = y # ys"
  by (induction xs) simp_all

lemma not_charset_semicolon: "\<not> charset_class CHR '';''" "\<not> charset_class CHR '',''"
  by (simp_all add: charset_class_def is_word_def)

lemma takeWhile_line:
  "CHR 0x0A \<notin> set g \<Longrightarrow> rest = [] \<or> hd rest = CHR 0x0A \<Longrightarrow>
     takeWhile (\<lambda>c. c \<noteq> CHR 0x0A) (g @ rest) = g"
proof (induction g)
  case Nil
  then show ?case by (cases rest) auto
next
  case (Cons c g)
  then show ?case by auto
qed

text \<open>
  The pattern read as a grammar. A text that starts with \<^verbatim>\<open>data:\<close>, a run of media type
  characters, an optional \<^verbatim>\<open>;charset=\<close> with a non-empty run of charset characters, an
  optional \<^verbatim>\<open>;base64\<close>, a comma and a line without line feed is matched with exactly
  these groups (completeness), and every match is such a decomposition (soundness). So
  the groups do not depend on the order in which a backtracking matcher tries its
  alternatives.
\<close>

lemma data_url_match_complete:
  assumes "list_all mime_class g1"
    and "g2 = None \<or> (\<exists>cs. cs \<noteq> [] \<and> list_all charset_class cs \<and> g2 = Some ('';charset='' @ cs))"
    and "g3 = None \<or> g3 = Some '';base64''"
    and "CHR 0x0A \<notin> set g4" and "rest = [] \<or> hd rest = CHR 0x0A"
  shows "data_url_match (''data:'' @ g1 @ (case g2 of None \<Rightarrow> [] | Some s \<Rightarrow> s) @
           (case g3 of None \<Rightarrow> [] | Some s \<Rightarrow> s) @ '','' @ g4 @ rest) = Some (g1, g2, g3, g4)"
proof -
  note line = takeWhile_line[OF assms(4,5)]
  note m = takeWhile_run[OF assms(1)] dropWhile_run[OF assms(1)] not_mime_semicolon
  from assms(2) show ?thesis
  proof
    assume g2: "g2 = None"
    from assms(3) show ?thesis
    proof
      assume "g3 = None"
      then show ?thesis using g2 by (simp add: data_url_match_def m line Let_def)
    next
      assume "g3 = Some '';base64''"
      then show ?thesis using g2 by (simp add: data_url_match_def m line Let_def)
    qed
  next
    assume "\<exists>cs. cs \<noteq> [] \<and> list_all charset_class cs \<and> g2 = Some ('';charset='' @ cs)"
    then obtain cs where cs: "cs \<noteq> []" "list_all charset_class cs" "g2 = Some ('';charset='' @ cs)"
      by blast
    note c = takeWhile_run[OF cs(2)] dropWhile_run[OF cs(2)] not_charset_semicolon
    from assms(3) show ?thesis
    proof
      assume "g3 = None"
      then show ?thesis using cs by (simp add: data_url_match_def m c line Let_def)
    next
      assume "g3 = Some '';base64''"
      then show ?thesis using cs by (simp add: data_url_match_def m c line Let_def)
    qed
  qed
qed

lemma takeWhile_line_rest:
  "\<exists>rest. t = takeWhile (\<lambda>c. c \<noteq> CHR 0x0A) t @ rest \<and> (rest = [] \<or> hd rest = CHR 0x0A)"
proof -
  have "t = takeWhile (\<lambda>c. c \<noteq> CHR 0x0A) t @ dropWhile (\<lambda>c. c \<noteq> CHR 0x0A) t" by simp
  moreover have "dropWhile (\<lambda>c. c \<noteq> CHR 0x0A) t = [] \<or> hd (dropWhile (\<lambda>c. c \<noteq> CHR 0x0A) t) = CHR 0x0A"
    using hd_dropWhile[of "\<lambda>c. c \<noteq> CHR 0x0A" t] by auto
  ultimately show ?thesis by blast
qed

lemma data_url_match_sound:
  assumes "data_url_match url = Some (g1, g2, g3, g4)"
  shows "\<exists>rest. url = ''data:'' @ g1 @ (case g2 of None \<Rightarrow> [] | Some s \<Rightarrow> s) @
           (case g3 of None \<Rightarrow> [] | Some s \<Rightarrow> s) @ '','' @ g4 @ rest
         \<and> list_all mime_class g1
         \<and> (g2 = None \<or> (\<exists>cs. cs \<noteq> [] \<and> list_all charset_class cs \<and> g2 = Some ('';charset='' @ cs)))
         \<and> (g3 = None \<or> g3 = Some '';base64'')
         \<and> CHR 0x0A \<notin> set g4 \<and> (rest = [] \<or> hd rest = CHR 0x0A)"
proof -
  from assms obtain r1 where l: "literal ''data:'' url = Some r1"
    by (auto simp: data_url_match_def split: option.splits)
  then have r1: "url = ''data:'' @ r1" by (simp add: literal_Some_iff)
  define r2 where "r2 = dropWhile mime_class r1"
  define p where "p = (case literal '';charset='' r2 of
                   None \<Rightarrow> (None, r2)
                 | Some t \<Rightarrow>
                     if takeWhile charset_class t = [] then (None, r2)
                     else (Some ('';charset='' @ takeWhile charset_class t),
                           dropWhile charset_class t))"
  define r3 where "r3 = snd p"
  define q where "q = (case literal '';base64'' r3 of
                   None \<Rightarrow> (None, r3)
                 | Some t \<Rightarrow> (Some '';base64'', t))"
  define r4 where "r4 = snd q"
  have eq: "data_url_match url =
      (case literal '','' r4 of
         None \<Rightarrow> None
       | Some t \<Rightarrow> Some (takeWhile mime_class r1, fst p, fst q, takeWhile (\<lambda>c. c \<noteq> CHR 0x0A) t))"
    unfolding data_url_match_def l r4_def q_def r3_def p_def r2_def
    by (simp add: Let_def split_beta)
  from assms obtain t where t: "literal '','' r4 = Some t"
    and g1: "g1 = takeWhile mime_class r1" and g2: "g2 = fst p" and g3: "g3 = fst q"
    and g4: "g4 = takeWhile (\<lambda>c. c \<noteq> CHR 0x0A) t"
    unfolding eq by (auto split: option.splits)
  have r1': "r1 = g1 @ r2" by (simp add: g1 r2_def)
  have a1: "list_all mime_class g1" unfolding g1 list_all_iff by (auto dest: set_takeWhileD)
  have r2': "r2 = (case g2 of None \<Rightarrow> [] | Some s \<Rightarrow> s) @ r3"
    unfolding g2 r3_def p_def
    by (auto simp: literal_Some_iff split: option.splits)
  have a2: "g2 = None \<or> (\<exists>cs. cs \<noteq> [] \<and> list_all charset_class cs \<and> g2 = Some ('';charset='' @ cs))"
    unfolding g2 p_def
    by (auto simp: list_all_iff split: option.splits dest: set_takeWhileD)
  have r3': "r3 = (case g3 of None \<Rightarrow> [] | Some s \<Rightarrow> s) @ r4"
    unfolding g3 r4_def q_def by (auto simp: literal_Some_iff split: option.splits)
  have a3: "g3 = None \<or> g3 = Some '';base64''"
    unfolding g3 q_def by (auto split: option.splits)
  have r4': "r4 = '','' @ t" using t by (simp add: literal_Some_iff)
  from takeWhile_line_rest[of t] obtain rest where
    rest: "t = g4 @ rest" "rest = [] \<or> hd rest = CHR 0x0A" using g4 by auto
  have a4: "CHR 0x0A \<notin> set g4" unfolding g4 by (auto dest: set_takeWhileD)
  have "url = ''data:'' @ g1 @ (case g2 of None \<Rightarrow> [] | Some s \<Rightarrow> s) @
           (case g3 of None \<Rightarrow> [] | Some s \<Rightarrow> s) @ '','' @ g4 @ rest"
    using r1 r1' r2' r3' r4' rest(1) by simp
  then show ?thesis using a1 a2 a3 a4 rest(2) by blast
qed

lemma data_url_match_data_uri:
  assumes "list_all mime_class mime"
  shows "data_url_match (data_uri mime bs) = Some (mime, None, Some '';base64'', b64encode bs)"
proof -
  have all: "\<And>x. x \<in> set mime \<Longrightarrow> mime_class x" using assms by (simp add: list_all_iff)
  have tw: "\<And>rest. takeWhile mime_class (mime @ CHR '';'' # rest) = mime"
    using all by (simp add: takeWhile_append2 not_mime_semicolon)
  have dw: "\<And>rest. dropWhile mime_class (mime @ CHR '';'' # rest) = CHR '';'' # rest"
    using all by (simp add: dropWhile_append2 not_mime_semicolon)
  have nl: "takeWhile (\<lambda>c. c \<noteq> CHR 0x0A) (b64encode bs) = b64encode bs"
    using b64encode_no_newline[of bs] by (auto simp add: takeWhile_eq_all_conv)
  have l: "literal ''data:'' (data_uri mime bs) = Some (mime @ '';base64,'' @ b64encode bs)"
    unfolding data_uri_def by (rule literal_append)
  show ?thesis
    unfolding data_url_match_def l by (simp add: tw dw nl Let_def)
qed

lemma check_data_url_data_uri:
  assumes "list_all mime_class mime" "str_in ''image'' mime"
  shows "check_data_url (data_uri mime bs) = Inr (PyBytes bs)"
  by (simp add: check_data_url_def data_url_match_data_uri[OF assms(1)] assms(2) b64decode_b64encode)

lemma get_content_data_uri:
  assumes "list_all mime_class mime" "str_in ''image'' mime" "bs \<noteq> []"
  shows "get_content session (data_uri mime bs) content_type = Inr (Data (PyBytes bs))"
  by (simp add: get_content_def check_data_url_data_uri[OF assms(1,2)] assms(3))

lemma data_url_match_flag:
  "data_url_match url = Some (m, c, Some enc, d) \<Longrightarrow> enc = '';base64''"
  by (auto simp: data_url_match_def Let_def split: option.splits if_splits prod.splits)

lemma check_data_url_no_match: "data_url_match url = None \<Longrightarrow> check_data_url url = Inr PyNone"
  by (simp add: check_data_url_def)

lemma get_content_no_match:
  "data_url_match url = None \<Longrightarrow> get_content session url k = try_get session url k"
  by (simp add: get_content_def check_data_url_no_match)

lemma except_clauses_own [simp]:
  "except_clauses (Inl (ValueError m)) = Inl (ValueError m)"
  "except_clauses (Inl (BadResponseError m)) = Inl (BadResponseError m)"
  "except_clauses (Inl (KeyError m)) = Inl (KeyError m)"
  "except_clauses (Inr v) = Inr v"
  by (simp_all add: except_clauses_def)

lemma of_char_pad: "(of_char c :: byte) = 0x3D \<longleftrightarrow> c = CHR ''=''"
proof
  assume a: "(of_char c :: byte) = 0x3D"
  have "(of_char c :: byte) = of_nat (of_char c)" by (simp add: of_nat_of_char)
  then have "unat (of_char c :: byte) = (of_char c :: nat)"
    by (simp add: unat_of_nat)
  then have "(of_char c :: nat) = of_char CHR ''=''" using a by simp
  then show "c = CHR ''=''" by (simp only: of_char_eq_iff)
qed simp

lemma loop_without_padding:
  assumes "0x3D \<notin> set cs" and "q < 4"
  shows "case a2b_base64_loop cs q l p bin of
           Inr bs \<Rightarrow> (q + length (filter (\<lambda>c. table_a2b_base64 c < 64) cs)) mod 4 = 0
         | Inl e \<Rightarrow> (q + length (filter (\<lambda>c. table_a2b_base64 c < 64) cs)) mod 4 \<noteq> 0
                    \<and> (\<exists>msg. e = BinasciiError msg)"
  using assms
proof (induction cs arbitrary: q l p bin)
  case Nil
  then show ?case by simp
next
  case (Cons c cs)
  then have c: "c \<noteq> 0x3D" and cs: "0x3D \<notin> set cs" by auto
  show ?case
  proof (cases "table_a2b_base64 c < 64")
    case False
    then have "64 \<le> table_a2b_base64 c" by simp
    then show ?thesis using c False Cons.IH[OF cs Cons.prems(2), of l p bin]
      by (simp split: sum.splits)
  next
    case True
    then have n: "\<not> 64 \<le> table_a2b_base64 c" by simp
    from Cons.prems(2) consider "q = 0" | "q = 1" | "q = 2" | "q = 3" by linarith
    then show ?thesis
    proof cases
      case 1
      show ?thesis using c n True 1 Cons.IH[OF cs, of 1 "table_a2b_base64 c" 0 bin]
        by (simp split: sum.splits)
    next
      case 2
      show ?thesis using c n True 2
          Cons.IH[OF cs, of 2 "table_a2b_base64 c AND 0x0F" 0
            "bin @ [push_bit 2 l OR drop_bit 4 (table_a2b_base64 c)]"]
        by (simp split: sum.splits)
    next
      case 3
      show ?thesis using c n True 3
          Cons.IH[OF cs, of 3 "table_a2b_base64 c AND 0x03" 0
            "bin @ [push_bit 4 l OR drop_bit 2 (table_a2b_base64 c)]"]
        by (simp split: sum.splits)
    next
      case 4
      show ?thesis using c n True 4
          Cons.IH[OF cs, of 0 0 0 "bin @ [push_bit 6 l OR table_a2b_base64 c]"]
        by (simp split: sum.splits)
    qed
  qed
qed

lemma b64decode_without_padding:
  assumes "list_all (\<lambda>c. (of_char c :: nat) < 128) payload" and "CHR ''='' \<notin> set payload"
  shows "case b64decode payload of
           Inr bs \<Rightarrow> length (filter is_b64_char payload) mod 4 = 0
         | Inl e \<Rightarrow> length (filter is_b64_char payload) mod 4 \<noteq> 0 \<and> (\<exists>msg. e = BinasciiError msg)"
proof -
  have np: "0x3D \<notin> set (map of_char payload :: byte list)"
    using assms(2) by (auto simp: of_char_pad)
  have f: "(\<lambda>c. table_a2b_base64 c < 64) \<circ> of_char = is_b64_char"
    by (simp add: fun_eq_iff is_b64_char_def)
  show ?thesis
    using loop_without_padding[OF np, of 0 0 0 "[]"] assms(1)
    by (simp add: b64decode_def bytes_from_decode_data_def a2b_base64_def filter_map f
        split: sum.splits)
qed

lemma loop_raises_binascii:
  "a2b_base64_loop cs q l p bin = Inl e \<Longrightarrow> \<exists>msg. e = BinasciiError msg"
proof (induction cs arbitrary: q l p bin)
  case Nil
  show ?case
  proof (cases "q = 0")
    case True
    then show ?thesis using Nil by simp
  next
    case False
    then show ?thesis using Nil by (cases "q = 1") auto
  qed
next
  case (Cons c cs)
  have "\<exists>q' l' p' bin'. a2b_base64_loop cs q' l' p' bin' = Inl e"
  proof (cases "c = 0x3D")
    case pad: True
    show ?thesis
    proof (cases "q \<ge> 2 \<and> q + (p + 1) \<ge> 4")
      case True
      then show ?thesis using pad Cons.prems by simp
    next
      case False
      then have "\<exists>p'. a2b_base64_loop cs q l p' bin = Inl e"
        using pad Cons.prems by (cases "2 \<le> q") auto
      then show ?thesis by blast
    qed
  next
    case False
    show ?thesis
    proof (cases "table_a2b_base64 c \<ge> 64")
      case True
      then have "a2b_base64_loop cs q l p bin = Inl e" using False Cons.prems by simp
      then show ?thesis by blast
    next
      case n: False
      consider "q = 0" | "q = 1" | "q = 2" | "q \<noteq> 0 \<and> q \<noteq> 1 \<and> q \<noteq> 2" by blast
      then show ?thesis
      proof cases
        case 1
        then have "a2b_base64_loop cs 1 (table_a2b_base64 c) 0 bin = Inl e"
          using False n Cons.prems by simp
        then show ?thesis by blast
      next
        case 2
        then have "a2b_base64_loop cs 2 (table_a2b_base64 c AND 0x0F) 0
             (bin @ [push_bit 2 l OR drop_bit 4 (table_a2b_base64 c)]) = Inl e"
          using False n Cons.prems by simp
        then show ?thesis by blast
      next
        case 3
        then have "a2b_base64_loop cs 3 (table_a2b_base64 c AND 0x03) 0
             (bin @ [push_bit 4 l OR drop_bit 2 (table_a2b_base64 c)]) = Inl e"
          using False n Cons.prems by simp
        then show ?thesis by blast
      next
        case 4
        then have "a2b_base64_loop cs 0 0 0 (bin @ [push_bit 6 l OR table_a2b_base64 c]) = Inl e"
          using False n Cons.prems by simp
        then show ?thesis by blast
      qed
    qed
  qed
  then obtain q' l' p' bin' where "a2b_base64_loop cs q' l' p' bin' = Inl e" by blast
  then show ?case by (rule Cons.IH)
qed

lemma b64decode_raises:
  assumes "list_all (\<lambda>c. (of_char c :: nat) < 128) payload" and "b64decode payload = Inl e"
  shows "\<exists>msg. e = BinasciiError msg"
proof -
  have "a2b_base64_loop (map of_char payload) 0 0 0 [] = Inl e"
    using assms by (simp add: b64decode_def bytes_from_decode_data_def a2b_base64_def)
  then show ?thesis by (blast dest: loop_raises_binascii)
qed

lemma b64decode_non_ascii:
  "\<not> list_all (\<lambda>c. (of_char c :: nat) < 128) payload \<Longrightarrow>
     b64decode payload = Inl (ValueError ''string argument should contain only ASCII characters'')"
  by (simp add: b64decode_def bytes_from_decode_data_def)

lemma data_url_without_flag:
  assumes "data_url_match url = Some (mime_type, charset, None, payload)"
    and "str_in ''image'' mime_type"
  shows "check_data_url url = Inl (TypeError ''argument of type 'NoneType' is not iterable'')"
  using assms by (simp add: check_data_url_def)

text \<open>The decimal rendering determines the number: the message carries the status.\<close>

lemma digit_value: "d < 10 \<Longrightarrow> (of_char (digit_char d) :: nat) = 48 + d"
proof -
  assume "d < 10"
  then have "d \<in> {0, 1, 2, 3, 4, 5, 6, 7, 8, 9}" by auto
  then show ?thesis by (auto simp: digit_char_def)
qed

lemma str_nat_value:
  "foldl (\<lambda>n c. 10 * n + (of_char c - 48)) 0 (str_nat n) = n"
proof (induction n rule: str_nat.induct)
  case (1 n)
  show ?case
  proof (cases "n < 10")
    case True
    then show ?thesis by (subst str_nat.simps) (simp add: digit_value)
  next
    case False
    then have "foldl (\<lambda>n c. 10 * n + (of_char c - 48)) 0 (str_nat (n div 10)) = n div 10"
      using 1 by simp
    then show ?thesis using False
      by (subst str_nat.simps) (simp add: digit_value)
  qed
qed

lemma str_nat_inj: "str_nat a = str_nat b \<Longrightarrow> a = b"
  by (metis str_nat_value)

lemma str_nat_no_minus: "CHR ''-'' \<notin> set (str_nat n)"
proof (induction n rule: str_nat.induct)
  case (1 n)
  have d: "\<And>d. d < 10 \<Longrightarrow> digit_char d \<noteq> CHR ''-''"
    using digit_value by fastforce
  show ?case
  proof (cases "n < 10")
    case True
    then show ?thesis using d[of n] by (subst str_nat.simps) auto
  next
    case False
    then show ?thesis using 1 d[of "n mod 10"] by (subst str_nat.simps) auto
  qed
qed

lemma str_int_inj: "str_int a = str_int b \<Longrightarrow> a = b"
proof -
  assume e: "str_int a = str_int b"
  have n: "\<And>n m. CHR ''-'' # str_nat n \<noteq> str_nat m"
    using str_nat_no_minus by (metis list.set_intros(1))
  show "a = b"
  proof (cases "a < 0")
    case True
    then have b: "b < 0" using e n by (auto simp: str_int_def simp del: str_nat.simps split: if_splits)
    then have "nat (- a) = nat (- b)" using e True by (auto simp: str_int_def simp del: str_nat.simps dest: str_nat_inj)
    then show ?thesis using True b by simp
  next
    case False
    then have b: "\<not> b < 0" using e n[of "nat (- b)" "nat a"] by (auto simp: str_int_def simp del: str_nat.simps split: if_splits)
    then have "nat a = nat b" using e False by (auto simp: str_int_def simp del: str_nat.simps dest: str_nat_inj)
    then show ?thesis using False b by simp
  qed
qed

section \<open>The claims\<close>

text \<open>
  C1, at the input where the code departs from it. The data URI of the empty byte string is
  well formed and decodes to the empty \<^verbatim>\<open>bytes\<close>; \<^verbatim>\<open>if data:\<close> takes it for "not a data
  URL" and the call goes to the network, where a URL without a host is an \<^verbatim>\<open>InvalidURL\<close>:
  the call raises instead of returning the empty bytes. For every other byte string the
  round trip holds (\<open>get_content_data_uri\<close> above).
\<close>

theorem empty_payload_is_not_returned:
  "data_uri ''image/png'' [] = ''data:image/png;base64,''
   \<and> check_data_url (data_uri ''image/png'' []) = Inr (PyBytes [])
   \<and> get_content (client_raises invalid_url) (data_uri ''image/png'' []) ''image'' =
       Inl (ValueError ''The URL provided is invalid.'')"
  by (simp add: data_uri_def get_content_def check_data_url_def data_url_match_def mime_class_def
      is_word_def b64decode_def bytes_from_decode_data_def a2b_base64_def try_get_def
      client_raises_def invalid_url_def except_clauses_def)

text \<open>
  C2, at an input where the code departs from it. A data URL with an image media type and
  no \<^verbatim>\<open>;base64\<close> flag does not give its payload back: group 3 of the match is \<^verbatim>\<open>None\<close>
  and \<^verbatim>\<open>"base64" in encoding\<close> raises \<^verbatim>\<open>TypeError\<close>, so the \<^verbatim>\<open>else\<close> branch that would
  return the payload is never reached (\<open>data_url_without_flag\<close> above, for every such URL).
\<close>

theorem data_url_without_flag_raises_TypeError:
  "check_data_url ''data:image/png,hello'' =
     Inl (TypeError ''argument of type 'NoneType' is not iterable'')
   \<and> get_content (client_raises invalid_url) ''data:image/png,hello'' ''image'' =
     Inl (TypeError ''argument of type 'NoneType' is not iterable'')"
  by (simp add: get_content_def check_data_url_def data_url_match_def mime_class_def is_word_def)




text \<open>
  C4: for every URL that is not a data URL and every requested kind, a response whose
  status is not 200 makes \<^verbatim>\<open>get_content\<close> raise \<^verbatim>\<open>BadResponseError\<close>, whose message
  carries the status in decimal; no value is returned.
\<close>

theorem bad_status_raises_BadResponseError:
  assumes "data_url_match url = None"
    and "session url = Inr r"
    and "status r \<noteq> 200"
  shows "get_content session url content_type =
           Inl (BadResponseError (''The URL leads to an error '' @ str_int (status r)))"
  using assms by (simp add: get_content_no_match try_get_def with_response_def)

theorem bad_status_raises_BadResponseError_witness:
  "data_url_match ''http://example.org/missing.png'' = None
   \<and> get_content (server_replies 404 ''text/html'' []) ''http://example.org/missing.png'' ''image'' =
      Inl (BadResponseError ''The URL leads to an error 404'')"
proof -
  have m: "data_url_match ''http://example.org/missing.png'' = None"
    by (simp add: data_url_match_def)
  show ?thesis
    using m bad_status_raises_BadResponseError[where session = "server_replies 404 ''text/html'' []" and content_type = "''image''", OF m]
    by (simp add: server_replies_def str_int_def digit_char_def)
qed

text \<open>
  C5: on the network path, for the kind \<^verbatim>\<open>image\<close> and a response with status 200 that
  declares a content type: if the content type does not contain \<^verbatim>\<open>image\<close> the call
  raises \<^verbatim>\<open>ValueError("The URL doesn't contain any image.")\<close>; if it does, the call returns
  the body that was read, unchanged.
\<close>

theorem image_kind_checks_content_type:
  assumes "data_url_match url = None"
    and "session url = Inr r"
    and "status r = 200"
    and "headers r ''content-type'' = Some ct"
  shows "(\<not> str_in ''image'' ct \<longrightarrow>
            get_content session url ''image'' = Inl (ValueError ''The URL doesn't contain any image.''))
       \<and> (str_in ''image'' ct \<longrightarrow>
            (\<forall>body. read r = Inr body \<longrightarrow>
               get_content session url ''image'' = Inr (Data (PyBytes body))))"
  using assms by (simp add: get_content_no_match try_get_def with_response_def)

theorem image_kind_checks_content_type_witness:
  "data_url_match ''http://example.org/a'' = None
   \<and> \<not> str_in ''image'' ''text/plain'' \<and> str_in ''image'' ''image/png''
   \<and> get_content (server_replies 200 ''text/plain'' [104, 105]) ''http://example.org/a'' ''image'' =
        Inl (ValueError ''The URL doesn't contain any image.'')
   \<and> get_content (server_replies 200 ''image/png'' [137, 80, 78, 71]) ''http://example.org/a'' ''image'' =
        Inr (Data (PyBytes [137, 80, 78, 71]))"
proof -
  have m: "data_url_match ''http://example.org/a'' = None"
    by (simp add: data_url_match_def)
  have a: "server_replies 200 ''text/plain'' [104, 105] ''http://example.org/a'' =
      Inr \<lparr>status = 200, headers = [''content-type'' \<mapsto> ''text/plain''], read = Inr [104, 105],
           json = Inl (ValueError ''Expecting value: line 1 column 1 (char 0)'')\<rparr>"
    by (simp add: server_replies_def)
  have b: "server_replies 200 ''image/png'' [137, 80, 78, 71] ''http://example.org/a'' =
      Inr \<lparr>status = 200, headers = [''content-type'' \<mapsto> ''image/png''],
           read = Inr [137, 80, 78, 71],
           json = Inl (ValueError ''Expecting value: line 1 column 1 (char 0)'')\<rparr>"
    by (simp add: server_replies_def)
  show ?thesis
    using m
      image_kind_checks_content_type[where session = "server_replies 200 ''text/plain'' [104, 105]" and ct = "''text/plain''", OF m a]
      image_kind_checks_content_type[where session = "server_replies 200 ''image/png'' [137, 80, 78, 71]" and ct = "''image/png''", OF m b]
    by simp
qed

text \<open>
  C6: on the network path, a timeout raised while connecting or while reading the body
  is caught and raised again as \<^verbatim>\<open>ValueError("Couldn't connect to URL. (Timeout)")\<close>; this
  differs from the error of a plain connection failure and from the error of an invalid
  URL. The timeout clause comes before the connection clause, so an exception that is
  both (aiohttp's \<^verbatim>\<open>ServerTimeoutError\<close>) is reported as a timeout.
\<close>

theorem timeout_is_distinguished:
  assumes "data_url_match url = None"
    and "isinstance e AsyncioTimeoutError" and "\<not> isinstance e InvalidURL"
    and "session url = Inl e \<or>
         (\<exists>r. session url = Inr r \<and> status r = 200 \<and>
            (content_type = ''json'' \<and> json r = Inl e \<or>
             content_type = ''bytes'' \<and> read r = Inl e \<or>
             content_type = ''image'' \<and> read r = Inl e \<and>
               (\<exists>ct. headers r ''content-type'' = Some ct \<and> str_in ''image'' ct)))"
    and "session_conn url = Inl e_conn" and "isinstance e_conn ClientConnectionError"
    and "\<not> isinstance e_conn AsyncioTimeoutError" and "\<not> isinstance e_conn InvalidURL"
    and "session_url url = Inl e_url" and "isinstance e_url InvalidURL"
  shows "get_content session url content_type = Inl (ValueError ''Couldn't connect to URL. (Timeout)'')
       \<and> get_content session_conn url content_type = Inl (ValueError ''Couldn't connect to URL.'')
       \<and> get_content session_url url content_type = Inl (ValueError ''The URL provided is invalid.'')
       \<and> get_content session url content_type \<noteq> get_content session_conn url content_type
       \<and> get_content session url content_type \<noteq> get_content session_url url content_type"
proof -
  have t: "except_clauses (Inl e :: exn + 'a pyval) = Inl (ValueError ''Couldn't connect to URL. (Timeout)'')"
    using assms(2,3) by (simp add: except_clauses_def)
  have 1: "get_content session url content_type = Inl (ValueError ''Couldn't connect to URL. (Timeout)'')"
    using assms(4)
  proof
    assume "session url = Inl e"
    then show ?thesis using t assms(1) by (simp add: get_content_no_match try_get_def)
  next
    assume "\<exists>r. session url = Inr r \<and> status r = 200 \<and>
            (content_type = ''json'' \<and> json r = Inl e \<or>
             content_type = ''bytes'' \<and> read r = Inl e \<or>
             content_type = ''image'' \<and> read r = Inl e \<and>
               (\<exists>ct. headers r ''content-type'' = Some ct \<and> str_in ''image'' ct))"
    then obtain r where r: "session url = Inr r" "status r = 200"
      and k: "content_type = ''json'' \<and> json r = Inl e \<or>
             content_type = ''bytes'' \<and> read r = Inl e \<or>
             content_type = ''image'' \<and> read r = Inl e \<and>
               (\<exists>ct. headers r ''content-type'' = Some ct \<and> str_in ''image'' ct)"
      by blast
    from k have "with_response r content_type = Inl e"
      using r(2) by (auto simp: with_response_def)
    then show ?thesis using t r assms(1) by (simp add: get_content_no_match try_get_def)
  qed
  have 2: "get_content session_conn url content_type = Inl (ValueError ''Couldn't connect to URL.'')"
    using assms(1,5,6,7,8) by (simp add: get_content_no_match try_get_def except_clauses_def)
  have 3: "get_content session_url url content_type = Inl (ValueError ''The URL provided is invalid.'')"
    using assms(1,9,10) by (simp add: get_content_no_match try_get_def except_clauses_def)
  show ?thesis unfolding 1 2 3 by simp
qed

theorem timeout_is_distinguished_witness:
  "data_url_match ''http://example.org/slow'' = None
   \<and> isinstance server_timeout_error AsyncioTimeoutError
   \<and> \<not> isinstance server_timeout_error InvalidURL
   \<and> isinstance client_connector_error ClientConnectionError
   \<and> \<not> isinstance client_connector_error AsyncioTimeoutError
   \<and> \<not> isinstance client_connector_error InvalidURL
   \<and> isinstance invalid_url InvalidURL
   \<and> get_content (client_raises server_timeout_error) ''http://example.org/slow'' ''bytes'' =
        Inl (ValueError ''Couldn't connect to URL. (Timeout)'')
   \<and> get_content (client_raises client_connector_error) ''http://example.org/slow'' ''bytes'' =
        Inl (ValueError ''Couldn't connect to URL.'')
   \<and> get_content (client_raises invalid_url) ''http://example.org/slow'' ''bytes'' =
        Inl (ValueError ''The URL provided is invalid.'')"
proof -
  have m: "data_url_match ''http://example.org/slow'' = None"
    by (simp add: data_url_match_def)
  have t: "isinstance server_timeout_error AsyncioTimeoutError"
    and n: "\<not> isinstance server_timeout_error InvalidURL"
    by (simp_all add: server_timeout_error_def)
  have r: "client_raises server_timeout_error ''http://example.org/slow'' = Inl server_timeout_error \<or>
      (\<exists>r. client_raises server_timeout_error ''http://example.org/slow'' = Inr r \<and> status r = 200 \<and>
            (''bytes'' = ''json'' \<and> json r = Inl server_timeout_error \<or>
             ''bytes'' = ''bytes'' \<and> read r = Inl server_timeout_error \<or>
             ''bytes'' = ''image'' \<and> read r = Inl server_timeout_error \<and>
               (\<exists>ct. headers r ''content-type'' = Some ct \<and> str_in ''image'' ct)))"
    by (simp add: client_raises_def)
  have c: "client_raises client_connector_error ''http://example.org/slow'' = Inl client_connector_error"
    "isinstance client_connector_error ClientConnectionError"
    "\<not> isinstance client_connector_error AsyncioTimeoutError"
    "\<not> isinstance client_connector_error InvalidURL"
    by (simp_all add: client_connector_error_def client_raises_def)
  have u: "client_raises invalid_url ''http://example.org/slow'' = Inl invalid_url"
    "isinstance invalid_url InvalidURL"
    by (simp_all add: invalid_url_def client_raises_def)
  show ?thesis
    using m t n c(2,3,4) u(2)
      timeout_is_distinguished[where session = "client_raises server_timeout_error"
           and session_conn = "client_raises client_connector_error"
           and session_url = "client_raises invalid_url"
           and url = "''http://example.org/slow''" and content_type = "''bytes''",
         OF m t n r c u]
    by simp
qed

text \<open>
  C7, as the code has it: for every data URL that the pattern matches with an image media
  type and the \<^verbatim>\<open>;base64\<close> flag, \<^verbatim>\<open>check_data_url\<close> returns the bytes that
  \<^verbatim>\<open>base64.b64decode\<close> returns for the payload and raises what it raises, unchanged:
  \<^verbatim>\<open>ValueError\<close> for a payload that is not ASCII, and only \<^verbatim>\<open>binascii.Error\<close> for an ASCII
  payload. Characters outside the base64 alphabet are skipped, so a payload that is not
  valid base64 need not fail: an ASCII payload without \<^verbatim>\<open>=\<close> fails exactly when the number
  of its alphabet characters is not a multiple of four.
\<close>

theorem base64_failure_is_library_error:
  assumes "data_url_match url = Some (mime_type, charset, Some enc, payload)"
    and "str_in ''image'' mime_type"
  shows "check_data_url url =
           (case b64decode payload of Inl e \<Rightarrow> Inl e | Inr bs \<Rightarrow> Inr (PyBytes bs))
       \<and> (list_all (\<lambda>c. (of_char c :: nat) < 128) payload \<longrightarrow>
             (\<forall>e. b64decode payload = Inl e \<longrightarrow> (\<exists>msg. e = BinasciiError msg)))
       \<and> (\<not> list_all (\<lambda>c. (of_char c :: nat) < 128) payload \<longrightarrow>
             b64decode payload =
               Inl (ValueError ''string argument should contain only ASCII characters''))
       \<and> (list_all (\<lambda>c. (of_char c :: nat) < 128) payload \<longrightarrow> CHR ''='' \<notin> set payload \<longrightarrow>
             ((\<exists>msg. b64decode payload = Inl (BinasciiError msg)) \<longleftrightarrow>
              length (filter is_b64_char payload) mod 4 \<noteq> 0))"
proof (intro conjI allI impI)
  show "check_data_url url =
           (case b64decode payload of Inl e \<Rightarrow> Inl e | Inr bs \<Rightarrow> Inr (PyBytes bs))"
    using assms data_url_match_flag[OF assms(1)] by (simp add: check_data_url_def)
next
  fix e
  assume "list_all (\<lambda>c. (of_char c :: nat) < 128) payload" and "b64decode payload = Inl e"
  then show "\<exists>msg. e = BinasciiError msg"
    by (rule b64decode_raises)
next
  assume "\<not> list_all (\<lambda>c. (of_char c :: nat) < 128) payload"
  then show "b64decode payload =
               Inl (ValueError ''string argument should contain only ASCII characters'')"
    by (rule b64decode_non_ascii)
next
  assume a: "list_all (\<lambda>c. (of_char c :: nat) < 128) payload" and p: "CHR ''='' \<notin> set payload"
  show "(\<exists>msg. b64decode payload = Inl (BinasciiError msg)) \<longleftrightarrow>
              length (filter is_b64_char payload) mod 4 \<noteq> 0"
    using b64decode_without_padding[OF a p] by (auto split: sum.splits)
qed

theorem base64_failure_is_library_error_witness:
  "data_url_match ''data:image/png;base64,QQ='' = Some (''image/png'', None, Some '';base64'', ''QQ='')
   \<and> data_url_match ''data:image/png;base64,QUJDR'' = Some (''image/png'', None, Some '';base64'', ''QUJDR'')
   \<and> data_url_match (''data:image/png;base64,'' @ [CHR 0xE9]) = Some (''image/png'', None, Some '';base64'', [CHR 0xE9])
   \<and> str_in ''image'' ''image/png''
   \<and> check_data_url ''data:image/png;base64,QQ='' = Inl (BinasciiError ''Incorrect padding'')
   \<and> list_all (\<lambda>c. (of_char c :: nat) < 128) ''QUJDR'' \<and> CHR ''='' \<notin> set ''QUJDR''
   \<and> length (filter is_b64_char ''QUJDR'') mod 4 \<noteq> 0
   \<and> (\<exists>msg. b64decode ''QUJDR'' = Inl (BinasciiError msg))
   \<and> \<not> list_all (\<lambda>c. (of_char c :: nat) < 128) [CHR 0xE9]
   \<and> b64decode [CHR 0xE9] = Inl (ValueError ''string argument should contain only ASCII characters'')"
proof -
  have m1: "data_url_match ''data:image/png;base64,QQ='' = Some (''image/png'', None, Some '';base64'', ''QQ='')"
    by (simp add: data_url_match_def mime_class_def is_word_def)
  have m2: "data_url_match ''data:image/png;base64,QUJDR'' = Some (''image/png'', None, Some '';base64'', ''QUJDR'')"
    by (simp add: data_url_match_def mime_class_def is_word_def)
  have m3: "data_url_match (''data:image/png;base64,'' @ [CHR 0xE9]) = Some (''image/png'', None, Some '';base64'', [CHR 0xE9])"
    by (simp add: data_url_match_def mime_class_def is_word_def)
  have i: "str_in ''image'' ''image/png''" by simp
  have d: "b64decode ''QQ='' = Inl (BinasciiError ''Incorrect padding'')"
    by (simp add: b64decode_def bytes_from_decode_data_def a2b_base64_def table_a2b_base64_def)
  have a: "list_all (\<lambda>c. (of_char c :: nat) < 128) ''QUJDR''" by simp
  have p: "CHR ''='' \<notin> set ''QUJDR''" by simp
  have l: "length (filter is_b64_char ''QUJDR'') mod 4 \<noteq> 0"
    by (simp add: is_b64_char_def table_a2b_base64_def)
  have n: "\<not> list_all (\<lambda>c. (of_char c :: nat) < 128) [CHR 0xE9]" by simp
  have t1: "check_data_url ''data:image/png;base64,QQ='' = Inl (BinasciiError ''Incorrect padding'')"
    using base64_failure_is_library_error[OF m1 i, THEN conjunct1] by (simp add: d)
  have t2: "\<exists>msg. b64decode ''QUJDR'' = Inl (BinasciiError msg)"
    using base64_failure_is_library_error[OF m2 i, THEN conjunct2, THEN conjunct2, THEN conjunct2] a p l by blast
  have t3: "b64decode [CHR 0xE9] =
      Inl (ValueError ''string argument should contain only ASCII characters'')"
    using base64_failure_is_library_error[OF m3 i, THEN conjunct2, THEN conjunct2, THEN conjunct1] n by blast
  show ?thesis
    by (intro conjI m1 m2 m3 i t1 a p l t2 n t3)
qed

theorem base64_failure_is_library_error_counterexample:
  "\<not> valid_base64 ''QUJD!'' \<and>
   check_data_url ''data:image/png;base64,QUJD!'' = Inr (PyBytes [65, 66, 67])"
  by (simp add: valid_base64_def is_b64_char_def check_data_url_def data_url_match_def
      mime_class_def is_word_def b64decode_def bytes_from_decode_data_def a2b_base64_def
      table_a2b_base64_def)

text \<open>
  C8, as the code has it: \<^verbatim>\<open>get_content\<close> returns a value only when the URL was decoded
  as inline data or the response had status 200; an exception of the inline decoder is
  raised unchanged; and on the network path of a URL that is not a data URL, a status
  other than 200 raises \<^verbatim>\<open>BadResponseError\<close>, and an exception of the client, raised on
  entering \<^verbatim>\<open>session.get\<close> or by \<^verbatim>\<open>r.read()\<close> or \<^verbatim>\<open>r.json()\<close> under a response of status
  200, raises the \<^verbatim>\<open>ValueError\<close> of the first \<^verbatim>\<open>except\<close> clause it is an instance of:
  \<^verbatim>\<open>InvalidURL\<close>, then the timeout, then \<^verbatim>\<open>ClientConnectionError\<close>.
\<close>

theorem fetch_result_invariant:
  "(\<forall>v. get_content session url content_type = Inr v \<longrightarrow>
      (\<exists>d. check_data_url url = Inr d \<and> d \<noteq> PyNone \<and> v = Data d) \<or>
      (\<exists>r. session url = Inr r \<and> status r = 200))
   \<and> (\<forall>e. check_data_url url = Inl e \<longrightarrow> get_content session url content_type = Inl e)
   \<and> (data_url_match url = None \<longrightarrow>
        (\<forall>r. session url = Inr r \<longrightarrow> status r \<noteq> 200 \<longrightarrow>
           get_content session url content_type =
             Inl (BadResponseError (''The URL leads to an error '' @ str_int (status r))))
      \<and> (\<forall>e. (session url = Inl e \<or>
               (\<exists>r. session url = Inr r \<and> status r = 200 \<and>
                  (content_type = ''json'' \<and> json r = Inl e \<or>
                   content_type = ''bytes'' \<and> read r = Inl e \<or>
                   content_type = ''image'' \<and> read r = Inl e \<and>
                     (\<exists>ct. headers r ''content-type'' = Some ct \<and> str_in ''image'' ct)))) \<longrightarrow>
             (isinstance e InvalidURL \<longrightarrow>
                get_content session url content_type =
                  Inl (ValueError ''The URL provided is invalid.''))
           \<and> (\<not> isinstance e InvalidURL \<longrightarrow> isinstance e AsyncioTimeoutError \<longrightarrow>
                get_content session url content_type =
                  Inl (ValueError ''Couldn't connect to URL. (Timeout)''))
           \<and> (\<not> isinstance e InvalidURL \<longrightarrow> \<not> isinstance e AsyncioTimeoutError \<longrightarrow>
                isinstance e ClientConnectionError \<longrightarrow>
                get_content session url content_type =
                  Inl (ValueError ''Couldn't connect to URL.''))))"
proof (intro conjI allI impI)
  fix v assume a: "get_content session url content_type = Inr v"
  show "(\<exists>d. check_data_url url = Inr d \<and> d \<noteq> PyNone \<and> v = Data d) \<or>
      (\<exists>r. session url = Inr r \<and> status r = 200)"
  proof (cases "check_data_url url")
    case (Inl e)
    then show ?thesis using a by (simp add: get_content_def)
  next
    case (Inr d)
    show ?thesis
    proof (cases "truthy d")
      case True
      then have "d \<noteq> PyNone" by auto
      then show ?thesis using a Inr True by (simp add: get_content_def)
    next
      case False
      then have t: "try_get session url content_type = Inr v"
        using a Inr by (simp add: get_content_def)
      then obtain r where r: "session url = Inr r"
        by (cases "session url") (auto simp: try_get_def except_clauses_def split: if_splits)
      have "status r = 200"
      proof (rule ccontr)
        assume "status r \<noteq> 200"
        then show False using t r by (simp add: try_get_def with_response_def)
      qed
      then show ?thesis using r by simp
    qed
  qed
next
  fix e assume "check_data_url url = Inl e"
  then show "get_content session url content_type = Inl e" by (simp add: get_content_def)
next
  fix r assume "data_url_match url = None" "session url = Inr r" "status r \<noteq> 200"
  then show "get_content session url content_type =
             Inl (BadResponseError (''The URL leads to an error '' @ str_int (status r)))"
    by (simp add: get_content_no_match try_get_def with_response_def)
next
  fix e
  assume m: "data_url_match url = None"
    and r: "session url = Inl e \<or>
               (\<exists>r. session url = Inr r \<and> status r = 200 \<and>
                  (content_type = ''json'' \<and> json r = Inl e \<or>
                   content_type = ''bytes'' \<and> read r = Inl e \<or>
                   content_type = ''image'' \<and> read r = Inl e \<and>
                     (\<exists>ct. headers r ''content-type'' = Some ct \<and> str_in ''image'' ct)))"
  have g: "get_content session url content_type = except_clauses (Inl e)"
    using r
  proof
    assume "session url = Inl e"
    then show ?thesis using m by (simp add: get_content_no_match try_get_def)
  next
    assume "\<exists>r. session url = Inr r \<and> status r = 200 \<and>
                  (content_type = ''json'' \<and> json r = Inl e \<or>
                   content_type = ''bytes'' \<and> read r = Inl e \<or>
                   content_type = ''image'' \<and> read r = Inl e \<and>
                     (\<exists>ct. headers r ''content-type'' = Some ct \<and> str_in ''image'' ct))"
    then obtain r where s: "session url = Inr r" "status r = 200"
      and k: "content_type = ''json'' \<and> json r = Inl e \<or>
                   content_type = ''bytes'' \<and> read r = Inl e \<or>
                   content_type = ''image'' \<and> read r = Inl e \<and>
                     (\<exists>ct. headers r ''content-type'' = Some ct \<and> str_in ''image'' ct)"
      by blast
    from k have "with_response r content_type = Inl e"
      using s(2) by (auto simp: with_response_def)
    then show ?thesis using s m by (simp add: get_content_no_match try_get_def)
  qed
  {
    assume "isinstance e InvalidURL"
    then show "get_content session url content_type = Inl (ValueError ''The URL provided is invalid.'')"
      unfolding g by (simp add: except_clauses_def)
  }
  {
    assume "\<not> isinstance e InvalidURL" "isinstance e AsyncioTimeoutError"
    then show "get_content session url content_type = Inl (ValueError ''Couldn't connect to URL. (Timeout)'')"
      unfolding g by (simp add: except_clauses_def)
  }
  {
    assume "\<not> isinstance e InvalidURL" "\<not> isinstance e AsyncioTimeoutError" "isinstance e ClientConnectionError"
    then show "get_content session url content_type = Inl (ValueError ''Couldn't connect to URL.'')"
      unfolding g by (simp add: except_clauses_def)
  }
qed

theorem fetch_result_invariant_witness:
  "data_url_match ''http://example.org/x'' = None
   \<and> get_content (server_replies 500 ''text/html'' []) ''http://example.org/x'' ''json'' =
        Inl (BadResponseError ''The URL leads to an error 500'')
   \<and> get_content (client_raises client_connector_error) ''http://example.org/x'' ''json'' =
        Inl (ValueError ''Couldn't connect to URL.'')
   \<and> get_content (\<lambda>url. Inr \<lparr>status = 200, headers = Map.empty,
           read = Inl (ClientException ''ServerDisconnectedError'' [ClientConnectionError]),
           json = Inl (ValueError ''Expecting value: line 1 column 1 (char 0)'')\<rparr> :: exn + int response)
         ''http://example.org/x'' ''bytes'' =
        Inl (ValueError ''Couldn't connect to URL.'')"
proof -
  let ?s = "\<lambda>url. Inr \<lparr>status = 200, headers = Map.empty,
           read = Inl (ClientException ''ServerDisconnectedError'' [ClientConnectionError]),
           json = Inl (ValueError ''Expecting value: line 1 column 1 (char 0)'')\<rparr> :: exn + int response"
  let ?u = "''http://example.org/x''"
  have m: "data_url_match ?u = None"
    by (simp add: data_url_match_def)
  have a: "get_content (server_replies 500 ''text/html'' []) ?u ''json'' =
        Inl (BadResponseError ''The URL leads to an error 500'')"
    using fetch_result_invariant[of "server_replies 500 ''text/html'' []" ?u "''json''", THEN conjunct2, THEN conjunct2] m
    by (simp add: server_replies_def str_int_def digit_char_def)
  have b: "get_content (client_raises client_connector_error) ?u ''json'' =
        Inl (ValueError ''Couldn't connect to URL.'')"
    using fetch_result_invariant[of "client_raises client_connector_error" ?u "''json''", THEN conjunct2, THEN conjunct2] m
    by (simp add: client_raises_def client_connector_error_def)
  have c: "get_content ?s ?u ''bytes'' = Inl (ValueError ''Couldn't connect to URL.'')"
    using fetch_result_invariant[of ?s ?u "''bytes''", THEN conjunct2, THEN conjunct2] m
    by simp
  show ?thesis by (intro conjI m a b c)
qed

theorem fetch_result_invariant_counterexample:
  "data_url_match ''http://example.org/loop'' = None
   \<and> get_content (client_raises too_many_redirects) ''http://example.org/loop'' ''bytes'' =
        Inl too_many_redirects
   \<and> \<not> classified too_many_redirects
   \<and> get_content (client_raises invalid_url) ''data:image/png;base64,QUJDR'' ''image'' =
        Inl (BinasciiError ''Invalid base64-encoded string: number of data characters (5) cannot be 1 more than a multiple of 4'')
   \<and> \<not> classified (BinasciiError ''Invalid base64-encoded string: number of data characters (5) cannot be 1 more than a multiple of 4'')"
  by (simp add: get_content_def check_data_url_def data_url_match_def mime_class_def
      is_word_def b64decode_def bytes_from_decode_data_def a2b_base64_def try_get_def
      client_raises_def too_many_redirects_def except_clauses_def classified_def
      table_a2b_base64_def digit_char_def)

text \<open>
  C9: on the network path, with a response of status 200 and a kind that is none of
  \<^verbatim>\<open>json\<close>, \<^verbatim>\<open>bytes\<close>, \<^verbatim>\<open>image\<close>, no branch returns or raises and \<^verbatim>\<open>get_content\<close>
  returns \<^verbatim>\<open>None\<close>.
\<close>

theorem unknown_kind_returns_None:
  assumes "data_url_match url = None"
    and "session url = Inr r"
    and "status r = 200"
    and "content_type \<noteq> ''json''" "content_type \<noteq> ''bytes''" "content_type \<noteq> ''image''"
  shows "get_content session url content_type = Inr (Data PyNone)"
  using assms by (simp add: get_content_no_match try_get_def with_response_def)

theorem unknown_kind_returns_None_witness:
  "data_url_match ''http://example.org/a'' = None
   \<and> get_content (server_replies 200 ''text/plain'' [104, 105]) ''http://example.org/a'' ''text'' =
        Inr (Data PyNone)"
proof -
  have m: "data_url_match ''http://example.org/a'' = None"
    by (simp add: data_url_match_def)
  show ?thesis
    using m unknown_kind_returns_None[where session = "server_replies 200 ''text/plain'' [104, 105]" and content_type = "''text''", OF m]
    by (simp add: server_replies_def)
qed

text \<open>
  C10: for every data URL with an image media type and the \<^verbatim>\<open>;base64\<close> flag whose payload
  decodes to the empty \<^verbatim>\<open>bytes\<close>, the inline result is falsy, \<^verbatim>\<open>if data:\<close> discards it
  and the call is the network path's call.
\<close>

theorem empty_inline_payload_falls_through:
  assumes "data_url_match url = Some (mime_type, charset, Some enc, payload)"
    and "str_in ''image'' mime_type"
    and "b64decode payload = Inr []"
  shows "check_data_url url = Inr (PyBytes []) \<and>
         get_content session url content_type = try_get session url content_type"
  using assms data_url_match_flag[OF assms(1)] by (simp add: get_content_def check_data_url_def)

theorem empty_inline_payload_falls_through_witness:
  "data_url_match ''data:image/png;base64,'' = Some (''image/png'', None, Some '';base64'', [])
   \<and> str_in ''image'' ''image/png'' \<and> b64decode [] = Inr []
   \<and> check_data_url ''data:image/png;base64,'' = Inr (PyBytes [])
   \<and> get_content (server_replies 404 ''text/html'' []) ''data:image/png;base64,'' ''image'' =
        Inl (BadResponseError ''The URL leads to an error 404'')"
proof -
  have m: "data_url_match ''data:image/png;base64,'' = Some (''image/png'', None, Some '';base64'', [])"
    by (simp add: data_url_match_def mime_class_def is_word_def)
  have i: "str_in ''image'' ''image/png''" by simp
  have d: "b64decode [] = Inr []"
    by (simp add: b64decode_def bytes_from_decode_data_def a2b_base64_def)
  show ?thesis
    using m i d empty_inline_payload_falls_through[OF m i d, of "server_replies 404 ''text/html'' []" "''image''"]
    by (simp add: try_get_def with_response_def server_replies_def str_int_def digit_char_def)
qed

end
